theory Spec2Isabelle
  imports Complex_Main
begin

section \<open>Data model\<close>

text \<open>
  The notebook works on torch tensors and numpy arrays of floating-point numbers.  An array
  is modelled by its shape and its entries, as a function from index tuples to values; only
  the entries at valid indices (each index below its dimension) belong to the array.  A
  \<open>tensor\<close> is an array of reals.
  Floating-point arithmetic is idealised as arithmetic over the reals: rounding, overflow,
  infinities and NaN are not modelled.  Exceptions are values of the type \<open>error\<close>:
  the Python, torch, scipy and einops exceptions the code can raise, and the names of the specification's own
  taxonomy (\<open>DegenerateInputError\<close>, \<open>ConfigurationError\<close>), which no code path raises.
\<close>

datatype error =
    ZeroDivisionError | IndexError | ValueError | AssertionError | RuntimeError | EinopsError
  | DegenerateInputError | ConfigurationError

record 'a array =
  shape :: "nat list"
  val :: "nat list \<Rightarrow> 'a"

type_synonym tensor = "real array"

definition valid_index :: "nat list \<Rightarrow> nat list \<Rightarrow> bool" where
  "valid_index s idx = list_all2 (\<lambda>i d. i < d) idx s"

text \<open>All index tuples of a shape, in row-major order.\<close>

fun all_indices :: "nat list \<Rightarrow> nat list list" where
  "all_indices [] = [[]]"
| "all_indices (d # ds) = concat (map (\<lambda>i. map ((#) i) (all_indices ds)) [0..<d])"

text \<open>Literal two- and three-dimensional tensors, for concrete inputs.\<close>

definition tensor2 :: "nat \<Rightarrow> nat \<Rightarrow> real list list \<Rightarrow> tensor" where
  "tensor2 r c rows = \<lparr>shape = [r, c], val = (\<lambda>idx. rows ! (idx ! 0) ! (idx ! 1))\<rparr>"

definition tensor3 :: "nat \<Rightarrow> nat \<Rightarrow> nat \<Rightarrow> real list list list \<Rightarrow> tensor" where
  "tensor3 a b c rows =
     \<lparr>shape = [a, b, c], val = (\<lambda>idx. rows ! (idx ! 0) ! (idx ! 1) ! (idx ! 2))\<rparr>"

subsection \<open>Broadcasting\<close>

text \<open>
  torch aligns the two shapes at their last dimension; two dimensions are compatible when
  they are equal or one of them is 1, and the result takes the other one.  An operand is
  read at the result index with the surplus leading positions dropped and every position of
  a dimension of size 1 set to 0.  Incompatible shapes raise \<open>RuntimeError\<close>.
\<close>

fun bshape_rev :: "nat list \<Rightarrow> nat list \<Rightarrow> nat list option" where
  "bshape_rev [] ys = Some ys"
| "bshape_rev xs [] = Some xs"
| "bshape_rev (x # xs) (y # ys) =
     (if x = y \<or> x = 1 \<or> y = 1
      then map_option ((#) (if x = 1 then y else x)) (bshape_rev xs ys)
      else None)"

definition broadcast_shapes :: "nat list \<Rightarrow> nat list \<Rightarrow> nat list option" where
  "broadcast_shapes a b = map_option rev (bshape_rev (rev a) (rev b))"

definition bidx :: "nat list \<Rightarrow> nat list \<Rightarrow> nat list" where
  "bidx s idx = map2 (\<lambda>d i. if d = 1 then 0 else i) s (drop (length idx - length s) idx)"

definition broadcast_op :: "(real \<Rightarrow> real \<Rightarrow> real) \<Rightarrow> tensor \<Rightarrow> tensor \<Rightarrow> error + tensor" where
  "broadcast_op f a b =
     (case broadcast_shapes (shape a) (shape b) of
        None \<Rightarrow> Inl RuntimeError
      | Some s \<Rightarrow> Inr \<lparr>shape = s,
           val = (\<lambda>idx. f (val a (bidx (shape a) idx)) (val b (bidx (shape b) idx)))\<rparr>)"

definition tsub :: "tensor \<Rightarrow> tensor \<Rightarrow> error + tensor" where
  "tsub = broadcast_op (\<lambda>u v. u - v)"

definition scale :: "real \<Rightarrow> tensor \<Rightarrow> tensor" where
  "scale a x = \<lparr>shape = shape x, val = (\<lambda>idx. a * val x idx)\<rparr>"

section \<open>The covariance estimator\<close>

text \<open>
  \<^verbatim>\<open>torch.mean(x, dim=-1, keepdims=True)\<close>: the last dimension becomes 1.  Over an empty
  last dimension torch yields NaN; the tensor the mean is subtracted from is then empty, so
  the value is never read.
\<close>

definition mean_last :: "tensor \<Rightarrow> tensor" where
  "mean_last x =
     (case rev (shape x) of
        [] \<Rightarrow> x
      | T # rs \<Rightarrow> \<lparr>shape = rev rs @ [1],
           val = (\<lambda>idx. (\<Sum>t<T. val x (butlast idx @ [t])) / real T)\<rparr>)"

text \<open>
  \<^verbatim>\<open>torch.einsum('...ct, ...Ct -> ...cC', x, x)\<close>: both operands are the same tensor, which
  needs at least two dimensions.
\<close>

definition einsum_ct_Ct :: "tensor \<Rightarrow> error + tensor" where
  "einsum_ct_Ct x =
     (let n = length (shape x) in
      if n < 2 then Inl RuntimeError
      else Inr \<lparr>shape = butlast (shape x) @ [shape x ! (n - 2)],
             val = (\<lambda>idx. \<Sum>t<shape x ! (n - 1).
                      val x (take (n - 2) idx @ [idx ! (n - 2), t]) *
                      val x (take (n - 2) idx @ [idx ! (n - 1), t]))\<rparr>)"

text \<open>
  \<^verbatim>\<open>def covariance(x, unbiased=True, mean=None)\<close>.  The factor
  \<^verbatim>\<open>1 / (x.shape[-1] - unbiased)\<close> is a division of Python integers, evaluated before the
  einsum: it raises \<open>ZeroDivisionError\<close> when the time length of the centred tensor equals
  \<open>unbiased\<close>.
\<close>

definition covariance :: "tensor \<Rightarrow> bool \<Rightarrow> tensor option \<Rightarrow> error + tensor" where
  "covariance x unbiased mean =
     (let m = (case mean of None \<Rightarrow> mean_last x | Some m \<Rightarrow> m) in
      case tsub x m of
        Inl e \<Rightarrow> Inl e
      | Inr xc \<Rightarrow>
          (case rev (shape xc) of
             [] \<Rightarrow> Inl IndexError
           | T # _ \<Rightarrow>
               if int T - (if unbiased then 1 else 0) = 0 then Inl ZeroDivisionError
               else (case einsum_ct_Ct xc of
                       Inl e \<Rightarrow> Inl e
                     | Inr g \<Rightarrow>
                         Inr (scale (1 / real_of_int (int T - (if unbiased then 1 else 0))) g))))"

text \<open>
  The mean-centred entry the specification speaks of: the entry minus the mean over the
  time axis of its own row, or minus the entry of the supplied mean broadcast to it.
\<close>

definition centered :: "tensor \<Rightarrow> tensor option \<Rightarrow> nat list \<Rightarrow> real" where
  "centered x mean idx =
     val x idx -
     (case mean of
        None \<Rightarrow> (\<Sum>t<last (shape x). val x (butlast idx @ [t])) / real (last (shape x))
      | Some m \<Rightarrow> val m (bidx (shape m) idx))"

section \<open>The spectral estimator\<close>

text \<open>
  Element-wise product and power, and the slices \<^verbatim>\<open>a[..., :p]\<close> and \<^verbatim>\<open>a[..., :-1]\<close>.
\<close>

definition tmul :: "tensor \<Rightarrow> tensor \<Rightarrow> error + tensor" where
  "tmul = broadcast_op (\<lambda>u v. u * v)"

definition tpow :: "tensor \<Rightarrow> nat \<Rightarrow> tensor" where
  "tpow x n = \<lparr>shape = shape x, val = (\<lambda>idx. val x idx ^ n)\<rparr>"

definition take_last :: "nat \<Rightarrow> 'a array \<Rightarrow> 'a array" where
  "take_last p x = \<lparr>shape = butlast (shape x) @ [min p (last (shape x))], val = val x\<rparr>"

definition drop_last1 :: "'a array \<Rightarrow> 'a array" where
  "drop_last1 x = \<lparr>shape = butlast (shape x) @ [last (shape x) - 1], val = val x\<rparr>"

text \<open>
  \<^verbatim>\<open>torch.fft.fft(signal, n, dim=-1)\<close>: the last axis is zero-padded or trimmed to length
  \<open>n\<close> and transformed; \<open>n = 0\<close> and a tensor without axes are refused.
  \<^verbatim>\<open>torch.fft.fftfreq(n, d)\<close> lists the non-negative frequencies first, then the negative
  ones, each divided by \<open>d * n\<close>.
\<close>

type_synonym ctensor = "complex array"

definition fft :: "tensor \<Rightarrow> nat \<Rightarrow> error + ctensor" where
  "fft signal n =
     (if shape signal = [] \<or> n = 0 then Inl RuntimeError
      else Inr \<lparr>shape = butlast (shape signal) @ [n],
             val = (\<lambda>idx. \<Sum>m<n.
                      complex_of_real (if m < last (shape signal)
                                       then val signal (butlast idx @ [m]) else 0) *
                      cis (- (2 * pi * real (last idx) * real m / real n)))\<rparr>)"

definition tabs :: "ctensor \<Rightarrow> tensor" where
  "tabs z = \<lparr>shape = shape z, val = (\<lambda>idx. cmod (val z idx))\<rparr>"

definition fftfreq :: "nat \<Rightarrow> real \<Rightarrow> tensor" where
  "fftfreq n d =
     \<lparr>shape = [n],
      val = (\<lambda>idx. (if hd idx < (n + 1) div 2 then real (hd idx) else real (hd idx) - real n)
                    / (d * real n))\<rparr>"

text \<open>
  \<^verbatim>\<open>def spectrum(signal, fs, nfreq)\<close>.  The step \<^verbatim>\<open>d=1/fs\<close> is a Python division.
\<close>

definition spectrum :: "tensor \<Rightarrow> real \<Rightarrow> nat \<Rightarrow> error + tensor \<times> tensor" where
  "spectrum signal fs nfreq =
     (case fft signal nfreq of
        Inl e \<Rightarrow> Inl e
      | Inr z \<Rightarrow>
          (let amplitudes = tabs z in
           if fs = 0 then Inl ZeroDivisionError
           else (let frequencies = fftfreq nfreq (1 / fs) in
                 if last (shape amplitudes) \<noteq> last (shape frequencies) then Inl AssertionError
                 else (let positive_freq = nfreq div 2 in
                       Inr (take_last positive_freq frequencies,
                            take_last positive_freq amplitudes)))))"

text \<open>
  The bin \<open>k\<close> of the length-\<open>N\<close> discrete Fourier transform of a kernel \<open>h\<close> of
  length \<open>K\<close> that is zero beyond its length, as the specification words it.
\<close>

definition dft_bin :: "(nat \<Rightarrow> real) \<Rightarrow> nat \<Rightarrow> nat \<Rightarrow> nat \<Rightarrow> complex" where
  "dft_bin h K N k =
     (\<Sum>m<N. complex_of_real (if m < K then h m else 0) *
             cis (- (2 * pi * real k * real m / real N)))"

text \<open>
  \<^verbatim>\<open>scipy.signal.welch(x, fs=fs, nperseg=nperseg, detrend='constant', axis=-1)\<close>.  Only the
  shapes of its two results are modelled; their values are parameters.  For a real input
  the estimate has \<open>n div 2 + 1\<close> frequency bins, where \<open>n\<close> is \<open>nperseg\<close>, lowered
  (with a warning) to the length of the time axis when that is shorter.  An input without
  elements is answered by arrays of the input's own shape; \<open>nperseg < 1\<close> is a
  \<open>ValueError\<close>.
\<close>

definition welch :: "(nat list \<Rightarrow> real) \<Rightarrow> (nat list \<Rightarrow> real) \<Rightarrow> tensor \<Rightarrow> real \<Rightarrow> nat
    \<Rightarrow> error + tensor \<times> tensor" where
  "welch freq_values psd_values x fs nperseg =
     (if shape x = [] then Inl IndexError
      else if 0 \<in> set (shape x) then
        Inr (\<lparr>shape = shape x, val = freq_values\<rparr>, \<lparr>shape = shape x, val = psd_values\<rparr>)
      else if nperseg < 1 then Inl ValueError
      else if fs = 0 then Inl ZeroDivisionError
      else (let nseg = (if last (shape x) < nperseg then last (shape x) else nperseg);
                nbins = nseg div 2 + 1
            in Inr (\<lparr>shape = [nbins], val = freq_values\<rparr>,
                    \<lparr>shape = butlast (shape x) @ [nbins], val = psd_values\<rparr>)))"

text \<open>\<^verbatim>\<open>einops.rearrange(a, 'c 1 t -> c t')\<close>.\<close>

definition rearrange_c1t_ct :: "'a array \<Rightarrow> error + 'a array" where
  "rearrange_c1t_ct x =
     (case shape x of
        [c, one, t] \<Rightarrow>
          if one = 1 then Inr \<lparr>shape = [c, t], val = (\<lambda>idx. val x [idx ! 0, 0, idx ! 1])\<rparr>
          else Inl EinopsError
      | _ \<Rightarrow> Inl EinopsError)"

text \<open>
  The notebook cell that derives the spectra.  \<open>x_unmixed\<close> is the signal after the
  spatial filter (one series per feature), \<open>temporal_filter\<close> the weight of the temporal
  filter, of shape (feature, 1, kernel length).
\<close>

record temporal_results =
  input_spectrum :: tensor
  temporal_filters_spectrum :: tensor
  temporal_patterns_spectrum :: tensor
  output_spectrum :: tensor

definition temporal_patterns_cell ::
  "(nat list \<Rightarrow> real) \<Rightarrow> (nat list \<Rightarrow> real) \<Rightarrow> tensor \<Rightarrow> tensor \<Rightarrow> real \<Rightarrow> nat
     \<Rightarrow> error + temporal_results" where
  "temporal_patterns_cell freq_values psd_values x_unmixed temporal_filter fs nyquist =
     (case welch freq_values psd_values x_unmixed fs nyquist of
        Inl e \<Rightarrow> Inl e
      | Inr (input_frequencies0, input_spectrum0) \<Rightarrow>
     (let input_frequencies = drop_last1 input_frequencies0;
          input_spectrum1 = drop_last1 input_spectrum0
      in case spectrum temporal_filter fs nyquist of
        Inl e \<Rightarrow> Inl e
      | Inr (frequencies_filter, spectrum0) \<Rightarrow>
     (case rearrange_c1t_ct spectrum0 of
        Inl e \<Rightarrow> Inl e
      | Inr filters_spectrum \<Rightarrow>
     (case tmul filters_spectrum input_spectrum1 of
        Inl e \<Rightarrow> Inl e
      | Inr patterns_spectrum \<Rightarrow>
     (case tmul (tpow filters_spectrum 2) input_spectrum1 of
        Inl e \<Rightarrow> Inl e
      | Inr out_spectrum \<Rightarrow>
          Inr \<lparr>input_spectrum = input_spectrum1,
               temporal_filters_spectrum = filters_spectrum,
               temporal_patterns_spectrum = patterns_spectrum,
               output_spectrum = out_spectrum\<rparr>)))))"

section \<open>The spatial pattern construction\<close>







text \<open>
  \<^verbatim>\<open>torch.zeros(s)\<close>, and the assignment \<^verbatim>\<open>a[i] = p\<close>, which broadcasts \<open>p\<close> to the
  shape of a row of \<open>a\<close>.
\<close>

definition zeros :: "nat list \<Rightarrow> tensor" where
  "zeros s = \<lparr>shape = s, val = (\<lambda>idx. 0)\<rparr>"










section \<open>The gradient importance scorer\<close>

text \<open>
  The last stage of \<^verbatim>\<open>SimpleNet.forward\<close>: \<^verbatim>\<open>y = self.regressor(z)\<close>, a convolution of
  kernel size 1 without bias from the features to one channel.  The weight \<open>w\<close> has the
  shape (1, feature, 1); \<open>z\<close> has the shape (batch, feature, time), or (feature, time)
  without a batch axis.
\<close>

definition regressor :: "tensor \<Rightarrow> tensor \<Rightarrow> error + tensor" where
  "regressor w z =
     (case shape w of
        [c_out, c_in, k] \<Rightarrow>
          (case shape z of
             [f, t] \<Rightarrow>
               if c_out = 1 \<and> k = 1 \<and> c_in = f \<and> 0 < f \<and> 0 < t
               then Inr \<lparr>shape = [1, t],
                      val = (\<lambda>idx. \<Sum>i<f. val w [idx ! 0, i, 0] * val z [i, idx ! 1])\<rparr>
               else Inl RuntimeError
           | [n, f, t] \<Rightarrow>
               if c_out = 1 \<and> k = 1 \<and> c_in = f \<and> 0 < f \<and> 0 < t
               then Inr \<lparr>shape = [n, 1, t],
                      val = (\<lambda>idx. \<Sum>i<f. val w [idx ! 1, i, 0] * val z [idx ! 0, i, idx ! 2])\<rparr>
               else Inl RuntimeError
           | _ \<Rightarrow> Inl RuntimeError)
      | _ \<Rightarrow> Inl RuntimeError)"

text \<open>
  Modelled from the spec: \<open>create_importance_indices\<close> (package \<open>envelope_detector\<close>),
  which is not among the sources; the notebook only calls it.  For each batch the pipeline
  is run forward to the activation \<open>z\<close> and the output \<open>y\<close>; the gradient of the sum of
  \<open>y\<close> with respect to \<open>z\<close> is taken (order 1); its absolute value is summed over the
  batch and time axes and accumulated over the batches; the accumulated vector is returned
  with the feature indices in descending order of it.  The stages before \<open>z\<close> belong to
  the detector, which is not among the sources either, so the data set is given as the list
  of the activations \<open>z\<close> of its batches.  The gradient is written out by hand, as the
  derivative of \<open>sum_output\<close> in each entry of \<open>z\<close>: entry \<open>(b, f, t)\<close> has the
  derivative \<open>w[0, f, 0]\<close>.  \<open>sum_output\<close> is the scalar the gradient is taken of, the sum
  of all entries of \<open>y\<close>.
\<close>

definition tsum :: "tensor \<Rightarrow> real" where
  "tsum y = (\<Sum>idx\<leftarrow>all_indices (shape y). val y idx)"

definition sum_output :: "tensor \<Rightarrow> tensor \<Rightarrow> real" where
  "sum_output w z = (case regressor w z of Inl e \<Rightarrow> 0 | Inr y \<Rightarrow> tsum y)"

definition regressor_gradient :: "tensor \<Rightarrow> tensor \<Rightarrow> error + tensor" where
  "regressor_gradient w z =
     (case regressor w z of
        Inl e \<Rightarrow> Inl e
      | Inr y \<Rightarrow> Inr \<lparr>shape = shape z, val = (\<lambda>idx. val w [0, idx ! 1, 0])\<rparr>)"

definition abs_sum_features :: "tensor \<Rightarrow> error + tensor" where
  "abs_sum_features g =
     (case shape g of
        [n, f, t] \<Rightarrow>
          Inr \<lparr>shape = [f], val = (\<lambda>idx. \<Sum>b<n. \<Sum>t'<t. \<bar>val g [b, hd idx, t']\<bar>)\<rparr>
      | _ \<Rightarrow> Inl RuntimeError)"

definition tadd :: "tensor \<Rightarrow> tensor \<Rightarrow> error + tensor" where
  "tadd = broadcast_op (\<lambda>u v. u + v)"

fun accumulate_gradients :: "tensor \<Rightarrow> tensor list \<Rightarrow> tensor \<Rightarrow> error + tensor" where
  "accumulate_gradients w [] gradients = Inr gradients"
| "accumulate_gradients w (z # batches) gradients =
     (case regressor_gradient w z of
        Inl e \<Rightarrow> Inl e
      | Inr g \<Rightarrow>
          (case abs_sum_features g of
             Inl e \<Rightarrow> Inl e
           | Inr s \<Rightarrow>
               (case tadd gradients s of
                  Inl e \<Rightarrow> Inl e
                | Inr gradients' \<Rightarrow> accumulate_gradients w batches gradients')))"

definition argsort_descending :: "tensor \<Rightarrow> nat list" where
  "argsort_descending g = sort_key (\<lambda>i. - val g [i]) [0..<hd (shape g)]"

definition create_importance_indices :: "tensor \<Rightarrow> tensor list \<Rightarrow> error + nat list \<times> tensor" where
  "create_importance_indices w batches =
     (case accumulate_gradients w batches (zeros [shape w ! 1]) of
        Inl e \<Rightarrow> Inl e
      | Inr gradients \<Rightarrow> Inr (argsort_descending gradients, gradients))"

text \<open>The tensor \<open>z\<close> with one entry replaced.\<close>

definition with_entry :: "tensor \<Rightarrow> nat list \<Rightarrow> real \<Rightarrow> tensor" where
  "with_entry z idx v = \<lparr>shape = shape z, val = (val z)(idx := v)\<rparr>"

text \<open>An entry of the gradient, where the forward pass succeeds.\<close>

definition gradient_entry :: "tensor \<Rightarrow> tensor \<Rightarrow> nat list \<Rightarrow> real" where
  "gradient_entry w z idx = (case regressor_gradient w z of Inl e \<Rightarrow> 0 | Inr g \<Rightarrow> val g idx)"

section \<open>Chunked accumulation of the covariance\<close>











section \<open>Indices and broadcasting: basic facts\<close>

lemma map2_bidx_valid:
  "list_all2 (\<lambda>i d. i < d) idx s \<Longrightarrow> map2 (\<lambda>d i. if d = Suc 0 then 0 else i) s idx = (idx :: nat list)"
  by (induction rule: list_all2_induct) auto

lemma bidx_valid: "valid_index s idx \<Longrightarrow> bidx s idx = idx"
  by (simp add: valid_index_def bidx_def map2_bidx_valid list_all2_lengthD)

lemma valid_index_length: "valid_index s idx \<Longrightarrow> length idx = length s"
  by (simp add: valid_index_def list_all2_lengthD)

lemma valid_index_snoc: "valid_index (s @ [T]) (l @ [t]) = (valid_index s l \<and> t < T)"
proof (cases "length l = length s")
  case True
  then show ?thesis by (simp add: valid_index_def list_all2_append)
next
  case False
  then show ?thesis by (auto simp add: valid_index_def dest: list_all2_lengthD)
qed

lemma bshape_rev_same: "bshape_rev s s = Some s"
  by (induction s) auto

lemma broadcast_shapes_same: "broadcast_shapes s s = Some s"
  by (simp add: broadcast_shapes_def bshape_rev_same)

lemma broadcast_shapes_keepdims:
  "broadcast_shapes (s @ [T]) (s @ [Suc 0]) = Some (s @ [T])"
  by (simp add: broadcast_shapes_def bshape_rev_same)

lemma shape_mean_last: "shape (mean_last x) = (if shape x = [] then [] else butlast (shape x) @ [1])"
  by (cases "shape x" rule: rev_cases) (simp_all add: mean_last_def)

lemma val_mean_last:
  "shape x = s @ [T] \<Longrightarrow> val (mean_last x) idx = (\<Sum>t<T. val x (butlast idx @ [t])) / real T"
  by (simp add: mean_last_def)

lemma bidx_keepdims:
  assumes "valid_index s l"
  shows "bidx (s @ [Suc 0]) (l @ [t]) = l @ [0]"
proof -
  have "length l = length s" using assms by (rule valid_index_length)
  then show ?thesis using assms
    by (simp add: bidx_def valid_index_def map2_bidx_valid)
qed

lemma covariance_centered:
  assumes sh: "shape x = s @ [T]"
    and m: "case mean of None \<Rightarrow> True | Some m \<Rightarrow> broadcast_shapes (shape x) (shape m) = Some (shape x)"
  shows "\<exists>xc. tsub x (case mean of None \<Rightarrow> mean_last x | Some m \<Rightarrow> m) = Inr xc \<and> shape xc = s @ [T] \<and>
           (\<forall>l t. valid_index s l \<longrightarrow> t < T \<longrightarrow> val xc (l @ [t]) = centered x mean (l @ [t]))"
proof (cases mean)
  case None
  have shm: "shape (mean_last x) = s @ [1]" using sh by (simp add: shape_mean_last)
  have bs: "broadcast_shapes (shape x) (shape (mean_last x)) = Some (s @ [T])"
    using sh shm by (simp add: broadcast_shapes_keepdims)
  show ?thesis
  proof (intro exI conjI allI impI)
    show "tsub x (case mean of None \<Rightarrow> mean_last x | Some m \<Rightarrow> m) =
          Inr \<lparr>shape = s @ [T], val = (\<lambda>idx. val x (bidx (shape x) idx) - val (mean_last x) (bidx (shape (mean_last x)) idx))\<rparr>"
      using None bs by (simp add: tsub_def broadcast_op_def)
    show "shape \<lparr>shape = s @ [T], val = (\<lambda>idx. val x (bidx (shape x) idx) - val (mean_last x) (bidx (shape (mean_last x)) idx))\<rparr> = s @ [T]"
      by simp
  next
    fix l t assume v: "valid_index s l" and t: "t < T"
    have vi: "valid_index (s @ [T]) (l @ [t])"
      using v t by (simp add: valid_index_snoc)
    have "val x (bidx (shape x) (l @ [t])) = val x (l @ [t])"
      using vi sh by (simp add: bidx_valid)
    moreover have "val (mean_last x) (bidx (shape (mean_last x)) (l @ [t])) =
                   (\<Sum>t'<T. val x (l @ [t'])) / real T"
      using v shm sh by (simp add: bidx_keepdims val_mean_last)
    ultimately show "val \<lparr>shape = s @ [T], val = (\<lambda>idx. val x (bidx (shape x) idx) - val (mean_last x) (bidx (shape (mean_last x)) idx))\<rparr> (l @ [t]) = centered x mean (l @ [t])"
      using None sh by (simp add: centered_def)
  qed
next
  case (Some mm)
  have bs: "broadcast_shapes (shape x) (shape mm) = Some (s @ [T])"
    using m Some sh by simp
  show ?thesis
  proof (intro exI conjI allI impI)
    show "tsub x (case mean of None \<Rightarrow> mean_last x | Some m \<Rightarrow> m) =
          Inr \<lparr>shape = s @ [T], val = (\<lambda>idx. val x (bidx (shape x) idx) - val mm (bidx (shape mm) idx))\<rparr>"
      using Some bs by (simp add: tsub_def broadcast_op_def)
    show "shape \<lparr>shape = s @ [T], val = (\<lambda>idx. val x (bidx (shape x) idx) - val mm (bidx (shape mm) idx))\<rparr> = s @ [T]"
      by simp
  next
    fix l t assume v: "valid_index s l" and t: "t < T"
    have vi: "valid_index (s @ [T]) (l @ [t])"
      using v t by (simp add: valid_index_snoc)
    have "val x (bidx (shape x) (l @ [t])) = val x (l @ [t])"
      using vi sh by (simp add: bidx_valid)
    then show "val \<lparr>shape = s @ [T], val = (\<lambda>idx. val x (bidx (shape x) idx) - val mm (bidx (shape mm) idx))\<rparr> (l @ [t]) = centered x mean (l @ [t])"
      using Some by (simp add: centered_def)
  qed
qed

lemma einsum_ct_Ct_value:
  assumes sh: "shape xc = lead @ [C, T]"
  shows "\<exists>g. einsum_ct_Ct xc = Inr g \<and> shape g = lead @ [C, C] \<and>
           (\<forall>l c d. length l = length lead \<longrightarrow>
              val g (l @ [c, d]) = (\<Sum>t<T. val xc (l @ [c, t]) * val xc (l @ [d, t])))"
  using sh by (simp add: einsum_ct_Ct_def Let_def butlast_append nth_append)

lemma covariance_unfold:
  assumes c: "tsub x (case mean of None \<Rightarrow> mean_last x | Some m \<Rightarrow> m) = Inr xc"
    and sh: "shape xc = lead @ [C, T]"
    and g: "einsum_ct_Ct xc = Inr g"
  shows "covariance x unbiased mean =
           (if int T - (if unbiased then 1 else 0) = 0 then Inl ZeroDivisionError
            else Inr (scale (1 / real_of_int (int T - (if unbiased then 1 else 0))) g))"
  using c sh g by (simp add: covariance_def Let_def)

lemma bshape_rev_absorb: "bshape_rev a b = Some s \<Longrightarrow> bshape_rev s a = Some s"
proof (induction a b arbitrary: s rule: bshape_rev.induct)
  case (1 ys)
  then show ?case by (cases ys) auto
next
  case (2 xs)
  then show ?case by (simp add: bshape_rev_same)
next
  case (3 x xs y ys)
  then show ?case by (auto split: if_splits)
qed

lemma broadcast_shapes_absorb:
  "broadcast_shapes a b = Some s \<Longrightarrow> broadcast_shapes s a = Some s"
  by (auto simp add: broadcast_shapes_def dest: bshape_rev_absorb)

lemma broadcast_shapes_rows:
  "broadcast_shapes [F, a] [F, b] =
     (if a = b \<or> a = 1 \<or> b = 1 then Some [F, if a = 1 then b else a] else None)"
  by (simp add: broadcast_shapes_def)

lemma covariance_entries:
  assumes sh: "shape x = lead @ [C, T]"
    and nz: "int T \<noteq> (if unbiased then 1 else 0)"
    and m: "case mean of None \<Rightarrow> True
            | Some m \<Rightarrow> broadcast_shapes (shape x) (shape m) = Some (shape x)"
  shows "\<exists>r. covariance x unbiased mean = Inr r \<and> shape r = lead @ [C, C] \<and>
           (\<forall>l c d. valid_index lead l \<longrightarrow> c < C \<longrightarrow> d < C \<longrightarrow>
              val r (l @ [c, d]) =
                1 / real_of_int (int T - (if unbiased then 1 else 0)) *
                (\<Sum>t<T. centered x mean (l @ [c, t]) * centered x mean (l @ [d, t])))"
proof -
  have sh': "shape x = (lead @ [C]) @ [T]" using sh by simp
  obtain xc where c: "tsub x (case mean of None \<Rightarrow> mean_last x | Some m \<Rightarrow> m) = Inr xc"
    and shc: "shape xc = lead @ [C, T]"
    and vc: "\<And>l t. valid_index (lead @ [C]) l \<Longrightarrow> t < T \<Longrightarrow> val xc (l @ [t]) = centered x mean (l @ [t])"
    using covariance_centered [OF sh' m] by auto
  obtain g where g: "einsum_ct_Ct xc = Inr g" and shg: "shape g = lead @ [C, C]"
    and vg: "\<And>l c d. length l = length lead \<Longrightarrow>
               val g (l @ [c, d]) = (\<Sum>t<T. val xc (l @ [c, t]) * val xc (l @ [d, t]))"
    using einsum_ct_Ct_value [OF shc] by blast
  let ?a = "1 / real_of_int (int T - (if unbiased then 1 else 0))"
  have r: "covariance x unbiased mean = Inr (scale ?a g)"
    using covariance_unfold [OF c shc g] nz by simp
  have ent: "val (scale ?a g) (l @ [c, d]) =
        ?a * (\<Sum>t<T. centered x mean (l @ [c, t]) * centered x mean (l @ [d, t]))"
    if l: "valid_index lead l" and cd: "c < C" "d < C" for l c d
  proof -
    have len: "length l = length lead" using l by (rule valid_index_length)
    have "val xc (l @ [c, t]) = centered x mean (l @ [c, t])" if "t < T" for t
      using vc [of "l @ [c]" t] l cd that by (simp add: valid_index_snoc)
    moreover have "val xc (l @ [d, t]) = centered x mean (l @ [d, t])" if "t < T" for t
      using vc [of "l @ [d]" t] l cd that by (simp add: valid_index_snoc)
    ultimately have "(\<Sum>t<T. val xc (l @ [c, t]) * val xc (l @ [d, t])) =
          (\<Sum>t<T. centered x mean (l @ [c, t]) * centered x mean (l @ [d, t]))"
      by (intro sum.cong) simp_all
    then show ?thesis using vg [OF len] by (simp add: scale_def)
  qed
  show ?thesis
  proof (intro exI conjI allI impI)
    show "covariance x unbiased mean = Inr (scale ?a g)" by (rule r)
    show "shape (scale ?a g) = lead @ [C, C]" using shg by (simp add: scale_def)
  next
    fix l c d assume "valid_index lead l" "c < C" "d < C"
    then show "val (scale ?a g) (l @ [c, d]) =
        ?a * (\<Sum>t<T. centered x mean (l @ [c, t]) * centered x mean (l @ [d, t]))"
      by (rule ent)
  qed
qed

lemma covariance_zero_division:
  assumes sh: "shape x = lead @ [C, T]"
    and z: "int T = (if unbiased then 1 else 0)"
    and m: "case mean of None \<Rightarrow> True
            | Some m \<Rightarrow> broadcast_shapes (shape x) (shape m) = Some (shape x)"
  shows "covariance x unbiased mean = Inl ZeroDivisionError"
proof -
  have sh': "shape x = (lead @ [C]) @ [T]" using sh by simp
  obtain xc where c: "tsub x (case mean of None \<Rightarrow> mean_last x | Some m \<Rightarrow> m) = Inr xc"
    and shc: "shape xc = lead @ [C, T]"
    using covariance_centered [OF sh' m] by auto
  obtain g where g: "einsum_ct_Ct xc = Inr g"
    using einsum_ct_Ct_value [OF shc] by blast
  show ?thesis using covariance_unfold [OF c shc g, of unbiased] z by simp
qed

lemma sum_list_map_upt:
  fixes g :: "nat \<Rightarrow> real"
  shows "(\<Sum>i\<leftarrow>[0..<d]. g i) = (\<Sum>i<d. g i)"
  by (induction d) simp_all

lemma sum_list_map_concat:
  fixes f :: "'a \<Rightarrow> real"
  shows "(\<Sum>x\<leftarrow>concat xss. f x) = (\<Sum>xs\<leftarrow>xss. \<Sum>x\<leftarrow>xs. f x)"
  by (induction xss) simp_all

lemma sum_list_all_indices_Cons:
  fixes f :: "nat list \<Rightarrow> real"
  shows "(\<Sum>idx\<leftarrow>all_indices (d # ds). f idx) = (\<Sum>i<d. \<Sum>idx\<leftarrow>all_indices ds. f (i # idx))"
proof -
  have "(\<Sum>idx\<leftarrow>all_indices (d # ds). f idx) =
        (\<Sum>i\<leftarrow>[0..<d]. \<Sum>idx\<leftarrow>all_indices ds. f (i # idx))"
    by (simp add: sum_list_map_concat comp_def)
  then show ?thesis by (simp only: sum_list_map_upt)
qed

lemma sum_list_all_indices3:
  fixes f :: "nat list \<Rightarrow> real"
  shows "(\<Sum>idx\<leftarrow>all_indices [a, b, c]. f idx) = (\<Sum>i<a. \<Sum>j<b. \<Sum>k<c. f [i, j, k])"
  by (simp only: sum_list_all_indices_Cons) simp

section \<open>Properties of the covariance estimator\<close>

text \<open>
  C2: for an array of shape (..., channel, time) with time length \<open>T\<close> and either value
  of \<open>unbiased\<close>, \<open>covariance\<close> returns the (..., channel, channel) tensor whose entry at
  batch index \<open>l\<close> and channels \<open>c\<close>, \<open>d\<close> is \<open>1 / (T - unbiased)\<close> times the sum over
  time of the products of the mean-centred entries of rows \<open>c\<close> and \<open>d\<close> of batch element
  \<open>l\<close>.  Centring subtracts the row's own mean over time when no mean is given and the
  supplied mean (broadcast to the array) otherwise.  Only entries of batch element \<open>l\<close>
  occur in the entry at \<open>l\<close>: batch elements are never pooled.  Where \<open>T - unbiased\<close> is
  zero the factor does not exist, and the call raises \<open>ZeroDivisionError\<close>.
\<close>

theorem covariance_formula:
  assumes sh: "shape x = lead @ [C, T]"
    and m: "case mean of None \<Rightarrow> True
            | Some m \<Rightarrow> broadcast_shapes (shape x) (shape m) = Some (shape x)"
  shows "if int T = (if unbiased then 1 else 0)
         then covariance x unbiased mean = Inl ZeroDivisionError
         else (\<exists>r. covariance x unbiased mean = Inr r \<and> shape r = lead @ [C, C] \<and>
                 (\<forall>l c d. valid_index lead l \<longrightarrow> c < C \<longrightarrow> d < C \<longrightarrow>
                    val r (l @ [c, d]) =
                      1 / real_of_int (int T - (if unbiased then 1 else 0)) *
                      (\<Sum>t<T. centered x mean (l @ [c, t]) * centered x mean (l @ [d, t]))))"
proof (cases "int T = (if unbiased then 1 else 0)")
  case True
  then show ?thesis using covariance_zero_division [OF sh True m] by simp
next
  case False
  then show ?thesis using covariance_entries [OF sh False m] by simp
qed

theorem covariance_formula_witness:
  "\<exists>r. covariance (tensor2 2 3 [[1, 2, 3], [1, 0, 5]]) True None = Inr r \<and> shape r = [2, 2] \<and>
       val r [0, 1] = 2 \<and> val r [1, 1] = 7"
proof -
  let ?x = "tensor2 2 3 [[1, 2, 3], [1, 0, 5]]"
  have sh: "shape ?x = [] @ [2, 3]" by (simp add: tensor2_def)
  have nz: "int 3 \<noteq> (if True then 1 else 0)" by simp
  have m: "case None of None \<Rightarrow> True
            | Some m \<Rightarrow> broadcast_shapes (shape ?x) (shape m) = Some (shape ?x)" by simp
  note th = covariance_formula [OF sh m, of True, unfolded if_not_P [OF nz]]
  obtain r where r: "covariance ?x True None = Inr r" and s: "shape r = [] @ [2, 2]"
    and v: "\<And>l c d. valid_index [] l \<Longrightarrow> c < 2 \<Longrightarrow> d < 2 \<Longrightarrow>
       val r (l @ [c, d]) = 1 / real_of_int (int 3 - (if True then 1 else 0)) *
         (\<Sum>t<3. centered ?x None (l @ [c, t]) * centered ?x None (l @ [d, t]))"
    using th by blast
  have "val r ([] @ [0, 1]) = 2"
    by (subst v) (simp_all add: valid_index_def centered_def tensor2_def eval_nat_numeral lessThan_Suc)
  moreover have "val r ([] @ [1, 1]) = 7"
    by (subst v) (simp_all add: valid_index_def centered_def tensor2_def eval_nat_numeral lessThan_Suc)
  ultimately show ?thesis using r s by simp
qed

text \<open>
  C9: whatever the input, the normalisation and the external mean, a matrix that
  \<open>covariance\<close> returns is symmetric in its last two indices, in every batch element.
\<close>

theorem covariance_symmetric:
  assumes "covariance x unbiased mean = Inr r"
  shows "\<exists>lead C. shape r = lead @ [C, C] \<and>
           (\<forall>l c d. valid_index lead l \<longrightarrow> c < C \<longrightarrow> d < C \<longrightarrow>
              val r (l @ [c, d]) = val r (l @ [d, c]))"
proof -
  let ?m = "case mean of None \<Rightarrow> mean_last x | Some m \<Rightarrow> m"
  obtain xc where c: "tsub x ?m = Inr xc"
    using assms by (cases "tsub x ?m") (simp_all add: covariance_def Let_def)
  have "\<exists>g0. einsum_ct_Ct xc = Inr g0"
    using assms c
    by (cases "einsum_ct_Ct xc") (simp_all add: covariance_def Let_def split: list.splits if_splits)
  then have n2: "2 \<le> length (shape xc)"
    by (auto simp add: einsum_ct_Ct_def Let_def split: if_splits)
  then obtain lead C T where shc: "shape xc = lead @ [C, T]"
  proof -
    obtain s1 T where a: "shape xc = s1 @ [T]"
      using n2 by (cases "shape xc" rule: rev_cases) auto
    then obtain lead C where b: "s1 = lead @ [C]"
      using n2 by (cases s1 rule: rev_cases) auto
    show ?thesis using that [of lead C T] a b by simp
  qed
  obtain g where g: "einsum_ct_Ct xc = Inr g" and shg: "shape g = lead @ [C, C]"
    and vg: "\<And>l c d. length l = length lead \<Longrightarrow>
               val g (l @ [c, d]) = (\<Sum>t<T. val xc (l @ [c, t]) * val xc (l @ [d, t]))"
    using einsum_ct_Ct_value [OF shc] by blast
  let ?a = "1 / real_of_int (int T - (if unbiased then 1 else 0))"
  have r: "r = scale ?a g"
    using covariance_unfold [OF c shc g, of unbiased] assms by (simp split: if_splits)
  show ?thesis
  proof (intro exI conjI allI impI)
    show "shape r = lead @ [C, C]" using r shg by (simp add: scale_def)
  next
    fix l c d assume l: "valid_index lead l"
    have len: "length l = length lead" using l by (rule valid_index_length)
    show "val r (l @ [c, d]) = val r (l @ [d, c])"
      unfolding r by (simp add: scale_def vg [OF len] mult.commute)
  qed
qed

theorem covariance_symmetric_witness:
  "\<exists>r. covariance (tensor2 2 3 [[1, 2, 3], [1, 0, 5]]) False None = Inr r \<and>
       val r [0, 1] = val r [1, 0]"
proof -
  let ?x = "tensor2 2 3 [[1, 2, 3], [1, 0, 5]]"
  obtain r where r: "covariance ?x False None = Inr r" and s: "shape r = [2, 2]"
    by (simp add: covariance_def tensor2_def mean_last_def tsub_def broadcast_op_def
        broadcast_shapes_def einsum_ct_Ct_def scale_def)
  obtain lead C where sh: "shape r = lead @ [C, C]"
    and v: "\<And>l c d. valid_index lead l \<Longrightarrow> c < C \<Longrightarrow> d < C \<Longrightarrow>
              val r (l @ [c, d]) = val r (l @ [d, c])"
    using covariance_symmetric [OF r] by blast
  have "lead = [] \<and> C = 2" using s sh by (cases lead rule: rev_cases) auto
  then have "val r ([] @ [0, 1]) = val r ([] @ [1, 0])"
    using v [of "[]" 0 1] by (simp add: valid_index_def)
  then show ?thesis using r by simp
qed

text \<open>
  C6 (as amended): for a signal whose time axis has length 1, \<open>covariance\<close> with
  \<open>unbiased = True\<close> (and no external mean, or one that broadcasts to the signal) fails:
  the integer division \<open>1 / (1 - True)\<close> raises Python's \<open>ZeroDivisionError\<close>, and no
  matrix is returned.
\<close>

theorem covariance_single_sample_unbiased:
  assumes sh: "shape x = lead @ [C, 1]"
    and m: "case mean of None \<Rightarrow> True
            | Some m \<Rightarrow> broadcast_shapes (shape x) (shape m) = Some (shape x)"
  shows "covariance x True mean = Inl ZeroDivisionError"
proof -
  have z: "int 1 = (if True then 1 else 0)" by simp
  show ?thesis using sh z m by (rule covariance_zero_division)
qed

theorem covariance_single_sample_unbiased_witness:
  "covariance (tensor2 2 1 [[1], [7]]) True None = Inl ZeroDivisionError"
proof -
  have sh: "shape (tensor2 2 1 [[1], [7]]) = [] @ [2, 1]" by (simp add: tensor2_def)
  show ?thesis using covariance_single_sample_unbiased [OF sh, of None] by simp
qed

text \<open>
  C6 as stated names the error \<open>DegenerateInputError\<close>; the error raised on a single
  sample is a different one.
\<close>

theorem covariance_degenerate_error_counterexample:
  "covariance (tensor2 1 1 [[5]]) True None = Inl ZeroDivisionError \<and>
   covariance (tensor2 1 1 [[5]]) True None \<noteq> Inl DegenerateInputError"
  by (simp add: covariance_def tensor2_def mean_last_def tsub_def broadcast_op_def
      broadcast_shapes_def)

text \<open>
  C10: for a signal whose time axis has length 1, \<open>covariance\<close> with
  \<open>unbiased = False\<close> and no external mean returns the all-zero (..., channel, channel)
  matrix: the single sample is its own mean, and the normaliser is \<open>1 / 1\<close>.
\<close>

theorem covariance_single_sample_biased:
  assumes sh: "shape x = lead @ [C, 1]"
  shows "\<exists>r. covariance x False None = Inr r \<and> shape r = lead @ [C, C] \<and>
           (\<forall>l c d. valid_index lead l \<longrightarrow> c < C \<longrightarrow> d < C \<longrightarrow> val r (l @ [c, d]) = 0)"
proof -
  have nz: "int 1 \<noteq> (if False then 1 else 0)" by simp
  have m: "case None of None \<Rightarrow> True
           | Some m \<Rightarrow> broadcast_shapes (shape x) (shape m) = Some (shape x)" by simp
  obtain r where r: "covariance x False None = Inr r" and s: "shape r = lead @ [C, C]"
    and v: "\<And>l c d. valid_index lead l \<Longrightarrow> c < C \<Longrightarrow> d < C \<Longrightarrow>
       val r (l @ [c, d]) = 1 / real_of_int (int 1 - (if False then 1 else 0)) *
         (\<Sum>t<1. centered x None (l @ [c, t]) * centered x None (l @ [d, t]))"
    using covariance_entries [OF sh nz m] by blast
  have z: "centered x None (l @ [c, 0]) = 0" for l c
    using sh by (simp add: centered_def butlast_append)
  show ?thesis
  proof (intro exI conjI allI impI)
    show "covariance x False None = Inr r" by (rule r)
    show "shape r = lead @ [C, C]" by (rule s)
  next
    fix l c d assume "valid_index lead l" "c < C" "d < C"
    then show "val r (l @ [c, d]) = 0" using v [of l c d] by (simp add: z)
  qed
qed

theorem covariance_single_sample_biased_witness:
  "\<exists>r. covariance (tensor2 2 1 [[1], [7]]) False None = Inr r \<and> shape r = [2, 2] \<and>
       val r [0, 0] = 0 \<and> val r [0, 1] = 0 \<and> val r [1, 0] = 0 \<and> val r [1, 1] = 0"
proof -
  have sh: "shape (tensor2 2 1 [[1], [7]]) = [] @ [2, 1]" by (simp add: tensor2_def)
  obtain r where r: "covariance (tensor2 2 1 [[1], [7]]) False None = Inr r"
    and s: "shape r = [] @ [2, 2]"
    and v: "\<And>l c d. valid_index [] l \<Longrightarrow> c < 2 \<Longrightarrow> d < 2 \<Longrightarrow> val r (l @ [c, d]) = 0"
    using covariance_single_sample_biased [OF sh] by blast
  have "val r ([] @ [0, 0]) = 0" "val r ([] @ [0, 1]) = 0"
       "val r ([] @ [1, 0]) = 0" "val r ([] @ [1, 1]) = 0"
    by (rule v; simp add: valid_index_def)+
  then show ?thesis using r s by simp
qed

section \<open>Properties of the spectral estimator\<close>

lemma derived_spectra_identity:
  assumes p: "tmul a b = Inr p" and out: "tmul (tpow a 2) b = Inr out"
  shows "\<exists>r. tmul p a = Inr r \<and> shape r = shape out \<and>
           (\<forall>idx. valid_index (shape out) idx \<longrightarrow> val r idx = val out idx)"
proof -
  obtain s where s: "broadcast_shapes (shape a) (shape b) = Some s"
    using p by (auto simp add: tmul_def broadcast_op_def split: option.splits)
  have pv: "p = \<lparr>shape = s, val = (\<lambda>idx. val a (bidx (shape a) idx) * val b (bidx (shape b) idx))\<rparr>"
    using p s by (simp add: tmul_def broadcast_op_def)
  have ov: "out = \<lparr>shape = s, val = (\<lambda>idx. (val a (bidx (shape a) idx))\<^sup>2 * val b (bidx (shape b) idx))\<rparr>"
    using out s by (simp add: tmul_def broadcast_op_def tpow_def)
  have sa: "broadcast_shapes (shape p) (shape a) = Some s"
    using broadcast_shapes_absorb [OF s] pv by simp
  show ?thesis
  proof (intro exI conjI allI impI)
    show "tmul p a = Inr \<lparr>shape = s, val = (\<lambda>idx. val p (bidx (shape p) idx) * val a (bidx (shape a) idx))\<rparr>"
      using sa by (simp add: tmul_def broadcast_op_def)
    show "shape \<lparr>shape = s, val = (\<lambda>idx. val p (bidx (shape p) idx) * val a (bidx (shape a) idx))\<rparr> = shape out"
      using ov by simp
  next
    fix idx assume "valid_index (shape out) idx"
    then have "bidx (shape p) idx = idx" using ov pv by (simp add: bidx_valid)
    then show "val \<lparr>shape = s, val = (\<lambda>idx. val p (bidx (shape p) idx) * val a (bidx (shape a) idx))\<rparr> idx = val out idx"
      by (simp add: pv ov power2_eq_square)
  qed
qed

lemma spectrum_shape:
  assumes sh: "shape w = [F, 1, K]" and fs: "fs \<noteq> 0" and n: "0 < nfreq"
  shows "\<exists>fr am. spectrum w fs nfreq = Inr (fr, am) \<and> shape am = [F, 1, nfreq div 2]"
  using assms by (simp add: spectrum_def fft_def Let_def tabs_def fftfreq_def take_last_def min_absorb1)

lemma welch_shape:
  assumes sh: "shape x = [F, L]" and F: "0 < F" and L: "0 < L" and fs: "fs \<noteq> 0" and n: "0 < nperseg"
  shows "\<exists>fr ps. welch fv pv x fs nperseg = Inr (fr, ps) \<and>
           shape ps = [F, (if L < nperseg then L else nperseg) div 2 + 1]"
  using assms by (simp add: welch_def Let_def)

text \<open>
  C8: for a temporal filter bank of shape (feature, 1, kernel length), a sample rate
  \<open>fs\<close> and a length \<open>nfreq\<close>, \<open>spectrum\<close> returns \<open>nfreq div 2\<close> bins; bin \<open>k\<close>
  lies strictly below half of \<open>nfreq\<close>, its frequency is \<open>k * fs / nfreq\<close>, and its
  amplitude for feature \<open>f\<close> is the magnitude of bin \<open>k\<close> of the length-\<open>nfreq\<close>
  discrete Fourier transform of the kernel of \<open>f\<close>, zero-padded.  A transform of length
  0 is refused by torch, and the sample rate 0 fails at the division \<open>1 / fs\<close>.
\<close>

theorem spectrum_filter_bank:
  assumes sh: "shape w = [F, 1, K]" and K: "0 < K"
  shows "if nfreq = 0 then spectrum w fs nfreq = Inl RuntimeError
         else if fs = 0 then spectrum w fs nfreq = Inl ZeroDivisionError
         else (\<exists>frequencies amplitudes.
                 spectrum w fs nfreq = Inr (frequencies, amplitudes) \<and>
                 shape frequencies = [nfreq div 2] \<and>
                 shape amplitudes = [F, 1, nfreq div 2] \<and>
                 (\<forall>k<nfreq div 2.
                    2 * k < nfreq \<and>
                    val frequencies [k] = real k * fs / real nfreq \<and>
                    (\<forall>f<F. val amplitudes [f, 0, k] =
                              cmod (dft_bin (\<lambda>m. val w [f, 0, m]) K nfreq k))))"
proof -
  have lt: "k < (nfreq + 1) div 2" if "k < nfreq div 2" for k using that by linarith
  show ?thesis
    using sh
    by (auto simp add: spectrum_def fft_def Let_def tabs_def fftfreq_def take_last_def
        dft_bin_def min_absorb1 lt cong: if_cong)
qed

theorem spectrum_filter_bank_witness:
  "\<exists>frequencies amplitudes.
     spectrum (tensor3 1 1 2 [[[3, 4]]]) 1000 4 = Inr (frequencies, amplitudes) \<and>
     shape frequencies = [2] \<and> shape amplitudes = [1, 1, 2] \<and>
     val frequencies [0] = 0 \<and> val frequencies [1] = 250 \<and> val amplitudes [0, 0, 0] = 7"
proof -
  let ?w = "tensor3 1 1 2 [[[3, 4]]]"
  have w: "shape ?w = [1, 1, 2]" by (simp add: tensor3_def)
  have n: "(4::nat) \<noteq> 0" and fs: "(1000::real) \<noteq> 0" by simp_all
  have K: "0 < (2::nat)" by simp
  note th = spectrum_filter_bank [OF w K, of 4 1000, unfolded if_not_P [OF n] if_not_P [OF fs]]
  obtain fr am where s: "spectrum ?w 1000 4 = Inr (fr, am)" and sf: "shape fr = [4 div 2]"
    and sa: "shape am = [1, 1, 4 div 2]"
    and v: "\<And>k. k < 4 div 2 \<Longrightarrow> 2 * k < (4::nat) \<and> val fr [k] = real k * 1000 / real 4 \<and>
              (\<forall>f<1. val am [f, 0, k] = cmod (dft_bin (\<lambda>m. val ?w [f, 0, m]) 2 4 k))"
    using th by blast
  have "val fr [0] = 0" using v [of 0] by simp
  moreover have "val fr [1] = 250" using v [of 1] by simp
  moreover have "val am [0, 0, 0] = cmod (dft_bin (\<lambda>m. val ?w [0, 0, m]) 2 4 0)"
    using v [of 0] by simp
  then have "val am [0, 0, 0] = 7"
    by (simp add: dft_bin_def tensor3_def eval_nat_numeral lessThan_Suc)
  ultimately show ?thesis using s sf sa by simp
qed

text \<open>
  C3: whenever the cell returns, its output spectrum is the element-wise product of its
  temporal-patterns spectrum with the filter spectrum, entry by entry and with the same
  shape, where the temporal-patterns spectrum is the filter spectrum times the input
  spectrum and the output spectrum is the squared filter spectrum times the input spectrum.
\<close>

theorem output_spectrum_identity:
  assumes "temporal_patterns_cell freq_values psd_values x_unmixed temporal_filter fs nyquist = Inr res"
  shows "tmul (temporal_filters_spectrum res) (input_spectrum res) = Inr (temporal_patterns_spectrum res) \<and>
         tmul (tpow (temporal_filters_spectrum res) 2) (input_spectrum res) = Inr (output_spectrum res) \<and>
         (\<exists>r. tmul (temporal_patterns_spectrum res) (temporal_filters_spectrum res) = Inr r \<and>
              shape r = shape (output_spectrum res) \<and>
              (\<forall>idx. valid_index (shape (output_spectrum res)) idx \<longrightarrow>
                 val r idx = val (output_spectrum res) idx))"
proof -
  have a: "tmul (temporal_filters_spectrum res) (input_spectrum res) = Inr (temporal_patterns_spectrum res)"
    and b: "tmul (tpow (temporal_filters_spectrum res) 2) (input_spectrum res) = Inr (output_spectrum res)"
    using assms
    by (auto simp add: temporal_patterns_cell_def Let_def split: sum.splits prod.splits)
  show ?thesis using a b derived_spectra_identity [OF a b] by blast
qed

theorem output_spectrum_identity_witness:
  "\<exists>res r. temporal_patterns_cell (\<lambda>idx. 0) (\<lambda>idx. 1) (tensor2 1 4 [[1, 2, 3, 4]])
            (tensor3 1 1 2 [[[3, 4]]]) 8 4 = Inr res \<and>
      tmul (temporal_patterns_spectrum res) (temporal_filters_spectrum res) = Inr r \<and>
      shape r = [1, 2] \<and>
      val r [0, 0] = val (output_spectrum res) [0, 0] \<and>
      val r [0, 1] = val (output_spectrum res) [0, 1]"
proof -
  obtain res where res: "temporal_patterns_cell (\<lambda>idx. 0) (\<lambda>idx. 1) (tensor2 1 4 [[1, 2, 3, 4]])
            (tensor3 1 1 2 [[[3, 4]]]) 8 4 = Inr res"
    and sh: "shape (output_spectrum res) = [1, 2]"
    by (simp add: temporal_patterns_cell_def welch_def spectrum_def fft_def tabs_def fftfreq_def
      take_last_def drop_last1_def rearrange_c1t_ct_def tmul_def tpow_def broadcast_op_def
      broadcast_shapes_def tensor2_def tensor3_def Let_def)
  obtain r where r: "tmul (temporal_patterns_spectrum res) (temporal_filters_spectrum res) = Inr r"
    and s: "shape r = shape (output_spectrum res)"
    and v: "\<And>idx. valid_index (shape (output_spectrum res)) idx \<Longrightarrow> val r idx = val (output_spectrum res) idx"
    using output_spectrum_identity [OF res] by blast
  have "val r [0, 0] = val (output_spectrum res) [0, 0]" "val r [0, 1] = val (output_spectrum res) [0, 1]"
    by (rule v; simp add: sh valid_index_def)+
  then show ?thesis using res r s sh by auto
qed

text \<open>
  C7 (as amended): for every \<open>nyquist > 0\<close>, odd or even, and a signal with at least
  \<open>nyquist\<close> time samples, the filter spectrum and the input spectrum both have
  \<open>nyquist div 2\<close> bins.  A shorter signal gives the input spectrum \<open>L div 2\<close> bins
  instead; the cell then fails with torch's \<open>RuntimeError\<close> at the element-wise product
  when the two counts differ and neither of them is 1.
\<close>

theorem bin_counts:
  assumes x: "shape x_unmixed = [F, L]" and w: "shape temporal_filter = [F, 1, K]"
    and F: "0 < F" and K: "0 < K" and L: "0 < L" and fs: "fs \<noteq> 0" and n: "0 < nyquist"
  shows "(nyquist \<le> L \<longrightarrow>
            (\<exists>res. temporal_patterns_cell freq_values psd_values x_unmixed temporal_filter fs nyquist = Inr res \<and>
               shape (temporal_filters_spectrum res) = [F, nyquist div 2] \<and>
               shape (input_spectrum res) = [F, nyquist div 2])) \<and>
         (L < nyquist \<longrightarrow> L div 2 \<noteq> nyquist div 2 \<longrightarrow> L div 2 \<noteq> 1 \<longrightarrow> nyquist div 2 \<noteq> 1 \<longrightarrow>
            temporal_patterns_cell freq_values psd_values x_unmixed temporal_filter fs nyquist = Inl RuntimeError)"
proof -
  obtain fr am where s: "spectrum temporal_filter fs nyquist = Inr (fr, am)"
    and am: "shape am = [F, 1, nyquist div 2]"
    using spectrum_shape [OF w fs n] by blast
  obtain fr' ps where wl: "welch freq_values psd_values x_unmixed fs nyquist = Inr (fr', ps)"
    and ps: "shape ps = [F, (if L < nyquist then L else nyquist) div 2 + 1]"
    using welch_shape [OF x F L fs n] by blast
  have r: "rearrange_c1t_ct am =
      Inr \<lparr>shape = [F, nyquist div 2], val = (\<lambda>idx. val am [idx ! 0, 0, idx ! 1])\<rparr>"
    using am by (simp add: rearrange_c1t_ct_def)
  have d: "shape (drop_last1 ps) = [F, (if L < nyquist then L else nyquist) div 2]"
    using ps by (simp add: drop_last1_def)
  show ?thesis
    using s wl r d
    by (auto simp add: temporal_patterns_cell_def Let_def tmul_def broadcast_op_def tpow_def
        broadcast_shapes_rows)
qed

theorem bin_counts_witness:
  "(\<exists>res. temporal_patterns_cell (\<lambda>idx. 0) (\<lambda>idx. 1) (tensor2 1 4 [[1, 2, 3, 4]])
            (tensor3 1 1 2 [[[3, 4]]]) 8 4 = Inr res \<and>
          shape (temporal_filters_spectrum res) = [1, 2] \<and> shape (input_spectrum res) = [1, 2]) \<and>
   temporal_patterns_cell (\<lambda>idx. 0) (\<lambda>idx. 1) (tensor2 1 4 [[1, 2, 3, 4]])
     (tensor3 1 1 2 [[[3, 4]]]) 8 10 = Inl RuntimeError"
proof -
  have x: "shape (tensor2 1 4 [[1, 2, 3, 4]]) = [1, 4]" by (simp add: tensor2_def)
  have w: "shape (tensor3 1 1 2 [[[3, 4]]]) = [1, 1, 2]" by (simp add: tensor3_def)
  show ?thesis
    using bin_counts [OF x w, of 8 4 "\<lambda>idx. 0" "\<lambda>idx. 1"]
          bin_counts [OF x w, of 8 10 "\<lambda>idx. 0" "\<lambda>idx. 1"]
    by simp
qed

text \<open>
  C7 as stated fails: with 3 time samples and \<open>nyquist = 4\<close> the input spectrum
  has 1 bin and the filter spectrum 2, and the cell returns all the same, the product
  broadcasting the single bin.
\<close>

theorem bin_counts_counterexample:
  "\<exists>res. temporal_patterns_cell (\<lambda>idx. 0) (\<lambda>idx. 1) (tensor2 1 3 [[1, 2, 3]])
            (tensor3 1 1 2 [[[3, 4]]]) 8 4 = Inr res \<and>
         shape (temporal_filters_spectrum res) = [1, 2] \<and>
         shape (input_spectrum res) = [1, 1] \<and>
         shape (output_spectrum res) = [1, 2]"
  by (simp add: temporal_patterns_cell_def welch_def spectrum_def fft_def tabs_def fftfreq_def
      take_last_def drop_last1_def rearrange_c1t_ct_def tmul_def tpow_def broadcast_op_def
      broadcast_shapes_def tensor2_def tensor3_def Let_def)

section \<open>Properties of the spatial pattern construction\<close>


















section \<open>Properties of the gradient importance scorer\<close>

lemma triple_delta:
  fixes c :: real and b0 n t0 T f0 F :: nat
  assumes "b0 < n" "t0 < T" "f0 < F"
  shows "(\<Sum>b<n. \<Sum>t<T. \<Sum>i<F. if b = b0 \<and> t = t0 \<and> i = f0 then c else 0) = c"
proof -
  have inner: "(\<Sum>i<F. if b = b0 \<and> t = t0 \<and> i = f0 then c else 0) =
               (if b = b0 \<and> t = t0 then c else 0)" for b t
    using assms(3) by (cases "b = b0 \<and> t = t0") (auto simp add: sum.delta)
  have mid: "(\<Sum>t<T. if b = b0 \<and> t = t0 then c else 0) = (if b = b0 then c else 0)" for b
    using assms(2) by (cases "b = b0") (auto simp add: sum.delta)
  show ?thesis using assms(1) by (simp only: inner mid) (simp add: sum.delta)
qed

lemma tsum_three_axes:
  assumes "shape y = [a, b, c]"
  shows "tsum y = (\<Sum>i<a. \<Sum>j<b. \<Sum>k<c. val y [i, j, k])"
  by (simp only: tsum_def assms sum_list_all_indices3)

lemma sum_output_value:
  assumes w: "shape w = [1, F, 1]" and z: "shape z = [n, F, T]" and F: "0 < F" and T: "0 < T"
  shows "sum_output w z = (\<Sum>b<n. \<Sum>t<T. \<Sum>i<F. val w [0, i, 0] * val z [b, i, t])"
proof -
  let ?y = "\<lparr>shape = [n, 1, T],
           val = (\<lambda>idx. \<Sum>i<F. val w [idx ! 1, i, 0] * val z [idx ! 0, i, idx ! 2])\<rparr>"
  have y: "regressor w z = Inr ?y"
    using assms by (simp add: regressor_def)
  have ys: "shape ?y = [n, 1, T]" by simp
  have "sum_output w z = tsum ?y" by (simp add: sum_output_def y)
  also have "\<dots> = (\<Sum>b<n. \<Sum>j<1. \<Sum>t<T. val ?y [b, j, t])" by (rule tsum_three_axes [OF ys])
  also have "\<dots> = (\<Sum>b<n. \<Sum>t<T. \<Sum>i<F. val w [0, i, 0] * val z [b, i, t])" by simp
  finally show ?thesis .
qed

lemma sum_output_with_entry:
  assumes w: "shape w = [1, F, 1]" and z: "shape z = [n, F, T]" and F: "0 < F" and T: "0 < T"
    and i: "b0 < n" "f0 < F" "t0 < T"
  shows "sum_output w (with_entry z [b0, f0, t0] v) =
         sum_output w z + val w [0, f0, 0] * (v - val z [b0, f0, t0])"
proof -
  have sz: "shape (with_entry z [b0, f0, t0] v) = [n, F, T]" using z by (simp add: with_entry_def)
  have "sum_output w (with_entry z [b0, f0, t0] v) =
        (\<Sum>b<n. \<Sum>t<T. \<Sum>i<F. val w [0, i, 0] * val z [b, i, t] +
            (if b = b0 \<and> t = t0 \<and> i = f0 then val w [0, f0, 0] * (v - val z [b0, f0, t0]) else 0))"
    unfolding sum_output_value [OF w sz F T]
    by (intro sum.cong refl) (auto simp add: with_entry_def algebra_simps)
  also have "\<dots> = sum_output w z + val w [0, f0, 0] * (v - val z [b0, f0, t0])"
    unfolding sum_output_value [OF w z F T]
    by (simp only: sum.distrib triple_delta [OF i(1) i(3) i(2)])
  finally show ?thesis .
qed

lemma regressor_gradient_is_derivative:
  assumes w: "shape w = [1, F, 1]" and z: "shape z = [n, F, T]" and F: "0 < F" and T: "0 < T"
    and i: "b0 < n" "f0 < F" "t0 < T"
  shows "\<exists>g. regressor_gradient w z = Inr g \<and> shape g = [n, F, T] \<and>
           ((\<lambda>v. sum_output w (with_entry z [b0, f0, t0] v)) has_real_derivative val g [b0, f0, t0])
             (at (val z [b0, f0, t0]))"
proof -
  have g: "regressor_gradient w z = Inr \<lparr>shape = [n, F, T], val = (\<lambda>idx. val w [0, idx ! 1, 0])\<rparr>"
    using w z F T by (simp add: regressor_gradient_def regressor_def)
  have "((\<lambda>v. sum_output w z + val w [0, f0, 0] * (v - val z [b0, f0, t0]))
          has_real_derivative val w [0, f0, 0]) (at (val z [b0, f0, t0]))"
    by (auto intro!: derivative_eq_intros)
  then have "((\<lambda>v. sum_output w (with_entry z [b0, f0, t0] v))
          has_real_derivative val w [0, f0, 0]) (at (val z [b0, f0, t0]))"
    by (simp add: sum_output_with_entry [OF w z F T i])
  then show ?thesis using g by simp
qed


lemma batch_scores:
  assumes w: "shape w = [1, F, 1]" and z: "shape z = [n, F, T]" and F: "0 < F" and T: "0 < T"
  shows "\<exists>g s. regressor_gradient w z = Inr g \<and> abs_sum_features g = Inr s \<and> shape s = [F] \<and>
           (\<forall>f. val s [f] = (\<Sum>b<n. \<Sum>t<T. \<bar>gradient_entry w z [b, f, t]\<bar>))"
  using assms
  by (simp add: regressor_gradient_def regressor_def abs_sum_features_def gradient_entry_def)

lemma tadd_vectors:
  assumes a: "shape a = [F]" and b: "shape b = [F]"
  shows "\<exists>r. tadd a b = Inr r \<and> shape r = [F] \<and> (\<forall>f<F. val r [f] = val a [f] + val b [f])"
proof -
  have "bidx [F] [f] = [f]" if "f < F" for f
    using that by (simp add: bidx_valid valid_index_def)
  then show ?thesis using a b by (simp add: tadd_def broadcast_op_def broadcast_shapes_same)
qed

lemma accumulate_gradients_value:
  assumes w: "shape w = [1, F, 1]" and F: "0 < F" and T: "0 < T"
  shows "\<forall>z\<in>set batches. \<exists>n. shape z = [n, F, T] \<Longrightarrow> shape acc = [F] \<Longrightarrow>
         \<exists>r. accumulate_gradients w batches acc = Inr r \<and> shape r = [F] \<and>
           (\<forall>f<F. val r [f] = val acc [f] +
              (\<Sum>z\<leftarrow>batches. \<Sum>b<shape z ! 0. \<Sum>t<T. \<bar>gradient_entry w z [b, f, t]\<bar>))"
proof (induction batches arbitrary: acc)
  case Nil
  then show ?case by simp
next
  case (Cons z batches)
  obtain n where z: "shape z = [n, F, T]" using Cons.prems(1) by auto
  obtain g s where g: "regressor_gradient w z = Inr g" and s: "abs_sum_features g = Inr s"
    and ss: "shape s = [F]"
    and sv: "\<And>f. val s [f] = (\<Sum>b<n. \<Sum>t<T. \<bar>gradient_entry w z [b, f, t]\<bar>)"
    using batch_scores [OF w z F T] by blast
  obtain acc' where t: "tadd acc s = Inr acc'" and ts: "shape acc' = [F]"
    and tv: "\<And>f. f < F \<Longrightarrow> val acc' [f] = val acc [f] + val s [f]"
    using tadd_vectors [OF Cons.prems(2) ss] by blast
  have rest: "\<forall>z\<in>set batches. \<exists>n. shape z = [n, F, T]" using Cons.prems(1) by simp
  obtain r where r: "accumulate_gradients w batches acc' = Inr r" and rs: "shape r = [F]"
    and rv: "\<And>f. f < F \<Longrightarrow> val r [f] = val acc' [f] +
              (\<Sum>z\<leftarrow>batches. \<Sum>b<shape z ! 0. \<Sum>t<T. \<bar>gradient_entry w z [b, f, t]\<bar>)"
    using Cons.IH [OF rest ts] by blast
  have "accumulate_gradients w (z # batches) acc = Inr r" using g s t r by simp
  moreover have "val r [f] = val acc [f] +
      (\<Sum>z\<leftarrow>z # batches. \<Sum>b<shape z ! 0. \<Sum>t<T. \<bar>gradient_entry w z [b, f, t]\<bar>)"
    if "f < F" for f
    using rv [OF that] tv [OF that] sv [of f] z by simp
  ultimately show ?case using rs by blast
qed

lemma argsort_descending_order:
  assumes g: "shape g = [F]"
  shows "set (argsort_descending g) = {..<F} \<and> distinct (argsort_descending g) \<and>
         (\<forall>i j. i \<le> j \<longrightarrow> j < F \<longrightarrow>
            val g [argsort_descending g ! j] \<le> val g [argsort_descending g ! i])"
proof -
  let ?o = "argsort_descending g"
  have o: "?o = sort_key (\<lambda>i. - val g [i]) [0..<F]" using g by (simp add: argsort_descending_def)
  have len: "length ?o = F" by (simp add: o)
  have srt: "sorted (map (\<lambda>i. - val g [i]) ?o)" unfolding o by (rule sorted_sort_key)
  have "val g [?o ! j] \<le> val g [?o ! i]" if "i \<le> j" "j < F" for i j
  proof -
    have "map (\<lambda>i. - val g [i]) ?o ! i \<le> map (\<lambda>i. - val g [i]) ?o ! j"
      using srt that len by (intro sorted_nth_mono) simp_all
    then show ?thesis using that len by simp
  qed
  moreover have "set ?o = {..<F}" by (auto simp add: o)
  moreover have "distinct ?o" by (simp add: o)
  ultimately show ?thesis by blast
qed

text \<open>
  C4: for every regressor weight of shape (1, feature, 1) and every data set whose batches
  have activations of shape (batch, feature, time), the scorer returns, per feature, the sum
  over the batches and over all batch and time positions of the absolute value of the
  gradient of the summed output with respect to the activation, where the gradient is the
  derivative of the summed output in each entry of the activation.  Every score is
  non-negative, and the returned order lists every feature index once, in descending order
  of the scores.
\<close>

theorem importance_scores:
  assumes w: "shape w = [1, F, 1]" and F: "0 < F" and T: "0 < T"
    and zs: "\<forall>z\<in>set batches. \<exists>n. shape z = [n, F, T]"
  shows "\<exists>order gradients.
           create_importance_indices w batches = Inr (order, gradients) \<and>
           shape gradients = [F] \<and>
           (\<forall>f<F. val gradients [f] =
                     (\<Sum>z\<leftarrow>batches. \<Sum>b<shape z ! 0. \<Sum>t<T. \<bar>gradient_entry w z [b, f, t]\<bar>) \<and>
                   0 \<le> val gradients [f]) \<and>
           (\<forall>z\<in>set batches. \<forall>b<shape z ! 0. \<forall>f<F. \<forall>t<T.
              ((\<lambda>v. sum_output w (with_entry z [b, f, t] v)) has_real_derivative
                 gradient_entry w z [b, f, t]) (at (val z [b, f, t]))) \<and>
           set order = {..<F} \<and> distinct order \<and>
           (\<forall>i j. i \<le> j \<longrightarrow> j < F \<longrightarrow> val gradients [order ! j] \<le> val gradients [order ! i])"
proof -
  have z0: "shape (zeros [F]) = [F]" by (simp add: zeros_def)
  obtain r where r: "accumulate_gradients w batches (zeros [F]) = Inr r" and rs: "shape r = [F]"
    and rv: "\<And>f. f < F \<Longrightarrow> val r [f] = val (zeros [F]) [f] +
              (\<Sum>z\<leftarrow>batches. \<Sum>b<shape z ! 0. \<Sum>t<T. \<bar>gradient_entry w z [b, f, t]\<bar>)"
    using accumulate_gradients_value [OF w F T zs z0] by blast
  have c: "create_importance_indices w batches = Inr (argsort_descending r, r)"
    using r w by (simp add: create_importance_indices_def)
  have v: "val r [f] = (\<Sum>z\<leftarrow>batches. \<Sum>b<shape z ! 0. \<Sum>t<T. \<bar>gradient_entry w z [b, f, t]\<bar>)"
    if "f < F" for f
    using rv [OF that] by (simp add: zeros_def)
  have nn: "0 \<le> val r [f]" if "f < F" for f
    unfolding v [OF that] by (intro sum_list_nonneg) (auto intro!: sum_nonneg)
  have der: "((\<lambda>v. sum_output w (with_entry z [b, f, t] v)) has_real_derivative
                 gradient_entry w z [b, f, t]) (at (val z [b, f, t]))"
    if zin: "z \<in> set batches" and bb: "b < shape z ! 0" and ff: "f < F" and tt: "t < T" for z b f t
  proof -
    from zs zin obtain n where z: "shape z = [n, F, T]" by auto
    have b: "b < n" using bb z by simp
    from regressor_gradient_is_derivative [OF w z F T b ff tt]
    obtain g where "regressor_gradient w z = Inr g"
      "((\<lambda>v. sum_output w (with_entry z [b, f, t] v)) has_real_derivative val g [b, f, t])
         (at (val z [b, f, t]))"
      by blast
    then show ?thesis by (simp add: gradient_entry_def)
  qed
  have ord: "set (argsort_descending r) = {..<F}" "distinct (argsort_descending r)"
    "\<And>i j. i \<le> j \<Longrightarrow> j < F \<Longrightarrow>
       val r [argsort_descending r ! j] \<le> val r [argsort_descending r ! i]"
    using argsort_descending_order [OF rs] by simp_all
  show ?thesis
  proof (intro exI conjI allI impI ballI)
    show "create_importance_indices w batches = Inr (argsort_descending r, r)" by (rule c)
    show "shape r = [F]" by (rule rs)
    show "set (argsort_descending r) = {..<F}" by (rule ord(1))
    show "distinct (argsort_descending r)" by (rule ord(2))
  next
    fix f assume "f < F"
    then show "val r [f] = (\<Sum>z\<leftarrow>batches. \<Sum>b<shape z ! 0. \<Sum>t<T. \<bar>gradient_entry w z [b, f, t]\<bar>)"
      by (rule v)
  next
    fix f assume "f < F"
    then show "0 \<le> val r [f]" by (rule nn)
  next
    fix z b f t assume "z \<in> set batches" "b < shape z ! 0" "f < F" "t < T"
    then show "((\<lambda>v. sum_output w (with_entry z [b, f, t] v)) has_real_derivative
                 gradient_entry w z [b, f, t]) (at (val z [b, f, t]))"
      by (rule der)
  next
    fix i j assume "i \<le> j" "j < F"
    then show "val r [argsort_descending r ! j] \<le> val r [argsort_descending r ! i]"
      by (rule ord(3))
  qed
qed


theorem importance_scores_witness:
  "\<exists>order gradients.
     create_importance_indices (tensor3 1 3 1 [[[2], [-5], [3]]])
       [tensor3 2 3 2 [[[1, 2], [3, 4], [5, 6]], [[1, 2], [3, 4], [5, 6]]],
        tensor3 1 3 2 [[[1, 2], [3, 4], [5, 6]]]] = Inr (order, gradients) \<and>
     shape gradients = [3] \<and> val gradients [1] = 30 \<and> 0 \<le> val gradients [0] \<and>
     set order = {..<3} \<and> val gradients [order ! 2] \<le> val gradients [order ! 0]"
proof -
  let ?w = "tensor3 1 3 1 [[[2], [-5], [3]]]"
  let ?z1 = "tensor3 2 3 2 [[[1, 2], [3, 4], [5, 6]], [[1, 2], [3, 4], [5, 6]]]"
  let ?z2 = "tensor3 1 3 2 [[[1, 2], [3, 4], [5, 6]]]"
  have w: "shape ?w = [1, 3, 1]" by (simp add: tensor3_def)
  have F: "0 < (3::nat)" and T: "0 < (2::nat)" by simp_all
  have zs: "\<forall>z\<in>set [?z1, ?z2]. \<exists>n. shape z = [n, 3, 2]" by (simp add: tensor3_def)
  obtain order g where c: "create_importance_indices ?w [?z1, ?z2] = Inr (order, g)"
    and s: "shape g = [3]"
    and v: "\<And>f. f < 3 \<Longrightarrow> val g [f] =
              (\<Sum>z\<leftarrow>[?z1, ?z2]. \<Sum>b<shape z ! 0. \<Sum>t<2. \<bar>gradient_entry ?w z [b, f, t]\<bar>) \<and>
              0 \<le> val g [f]"
    and o: "set order = {..<3}"
    and d: "\<And>i j. i \<le> j \<Longrightarrow> j < 3 \<Longrightarrow> val g [order ! j] \<le> val g [order ! i]"
    using importance_scores [OF w F T zs] by blast
  have "val g [1] = 30"
    using v [of 1]
    by (simp add: gradient_entry_def regressor_gradient_def regressor_def tensor3_def)
  moreover have "0 \<le> val g [0]" using v [of 0] by simp
  moreover have "val g [order ! 2] \<le> val g [order ! 0]" using d [of 0 2] by simp
  ultimately show ?thesis using c s o by blast
qed

section \<open>Properties of the chunked accumulation\<close>






















end
